theory Spec2Isabelle
  imports Complex_Main "HOL-Library.Word" "HOL-Library.Multiset"
begin

section \<open>The packed dataset of \<open>src/demo/llama/dataset.py\<close>\<close>

text \<open>
  The development embeds \<open>PackedDataset\<close>, \<open>PackedDatasetIterator\<close>, \<open>CombinedDataset\<close> and
  \<open>CombinedDatasetIterator\<close>. Mutation of \<open>self\<close> is explicit state passing. An exception is
  a value of \<open>error\<close>; a method of an object that survives the exception returns the
  error together with the state the object is left in.

  Counts and cursors (\<open>n_chunks\<close>, \<open>block_size\<close>, \<open>num_processes\<close>, \<open>process_rank\<close>, the
  file cursor, the read cursor) are natural numbers. Bytes are \<open>8 word\<close>. The collaborators
  outside the file are parameters: the byte fetch \<open>download_single\<close>, numpy's generator
  (\<open>default_rng\<close>, \<open>permutation\<close>), the uniform draw of \<open>random.Random\<close>, the ambient
  \<open>get_worker_info()\<close>, and numpy's conversion of a floating-point element to \<open>int64\<close>.
\<close>

subsection \<open>Errors, dtypes, header constants\<close>

type_synonym byte = "8 word"

datatype error =
    StopIteration
  | IndexError
  | UnboundLocalError
  | AssertionError
  | KeyError
  | StructError
  | ZeroDivisionError
  | TypeError
  | ValueError
  | AttributeError
  | FetchError

datatype dtype = UInt8 | Int8 | Int16 | Int32 | Int64 | Float32 | Float64 | UInt16

text \<open>The dictionary \<open>dtypes\<close> (lines 16-25); the key is the unpacked code byte.\<close>

definition dtypes :: "nat \<rightharpoonup> dtype" where
  "dtypes = [1 \<mapsto> UInt8, 2 \<mapsto> Int8, 3 \<mapsto> Int16, 4 \<mapsto> Int32,
             5 \<mapsto> Int64, 6 \<mapsto> Float32, 7 \<mapsto> Float64, 8 \<mapsto> UInt16]"

text \<open>\<open>HDR_MAGIC = b"LITPKDS"\<close> and \<open>HDR_SIZE = 24\<close> (lines 37-38).\<close>

definition HDR_MAGIC :: "byte list" where
  "HDR_MAGIC = [76, 73, 84, 80, 75, 68, 83]"

definition HDR_SIZE :: nat where
  "HDR_SIZE = 24"

subsection \<open>\<open>io.BytesIO\<close> and \<open>struct.unpack\<close>\<close>

text \<open>A \<open>BytesIO\<close> object: the bytes it was built from and the read position.\<close>

record bytes_io =
  content :: "byte list"
  pos :: nat

definition BytesIO :: "byte list \<Rightarrow> bytes_io" where
  "BytesIO bs = \<lparr>content = bs, pos = 0\<rparr>"

text \<open>\<open>read(n)\<close>: at most \<open>n\<close> bytes from the position, which moves past them.\<close>

definition bio_read :: "bytes_io \<Rightarrow> nat \<Rightarrow> byte list \<times> bytes_io" where
  "bio_read b n =
     (let out = take n (drop (pos b) (content b))
      in (out, b\<lparr>pos := pos b + length out\<rparr>))"

text \<open>\<open>read()\<close>: everything from the position to the end.\<close>

definition bio_read_all :: "bytes_io \<Rightarrow> byte list \<times> bytes_io" where
  "bio_read_all b =
     (let out = drop (pos b) (content b)
      in (out, b\<lparr>pos := pos b + length out\<rparr>))"

definition bio_seek :: "bytes_io \<Rightarrow> nat \<Rightarrow> bytes_io" where
  "bio_seek b k = b\<lparr>pos := k\<rparr>"

text \<open>The value of a little-endian unsigned byte string.\<close>

fun le_uint :: "byte list \<Rightarrow> nat" where
  "le_uint [] = 0"
| "le_uint (b # bs) = unat b + 256 * le_uint bs"

text \<open>
  \<open>struct.unpack("<Q", bs)\<close> and \<open>struct.unpack("<B", bs)\<close>: \<open>struct.error\<close> unless the
  buffer has exactly 8 bytes (1 byte).
\<close>

definition unpack_Q :: "byte list \<Rightarrow> error + nat" where
  "unpack_Q bs = (if length bs = 8 then Inr (le_uint bs) else Inl StructError)"

definition unpack_B :: "byte list \<Rightarrow> error + nat" where
  "unpack_B bs = (if length bs = 1 then Inr (le_uint bs) else Inl StructError)"

subsection \<open>\<open>PackedDatasetIterator._read\<close> (lines 110-121)\<close>

text \<open>
  The first argument is the byte fetch bound to the iterator
  (\<open>download_single(self.storage_client, self.bucket_name, _)\<close>): the bytes of the
  object, or \<open>None\<close> when the collaborator raises, which \<open>_read\<close> lets through
  (\<open>FetchError\<close>). The two \<open>assert\<close> statements raise \<open>AssertionError\<close>, the dictionary
  lookup \<open>KeyError\<close>.
\<close>

definition pdi_read ::
  "(string \<Rightarrow> byte list option) \<Rightarrow> string \<Rightarrow> error + (dtype \<times> nat \<times> bytes_io)" where
  "pdi_read fetch path =
     (case fetch path of
        None \<Rightarrow> Inl FetchError
      | Some bytes_content \<Rightarrow>
          (let bytes_io = BytesIO bytes_content;
               (magic, b1) = bio_read bytes_io (length HDR_MAGIC)
           in if magic \<noteq> HDR_MAGIC then Inl AssertionError
              else
                (let (vbytes, b2) = bio_read b1 8
                 in (case unpack_Q vbytes of
                       Inl e \<Rightarrow> Inl e
                     | Inr version \<Rightarrow>
                         if version \<noteq> 1 then Inl AssertionError
                         else
                           (let (cbytes, b3) = bio_read b2 1
                            in (case unpack_B cbytes of
                                  Inl e \<Rightarrow> Inl e
                                | Inr dtype_code \<Rightarrow>
                                    (case dtypes dtype_code of
                                       None \<Rightarrow> Inl KeyError
                                     | Some dt \<Rightarrow>
                                         (let (sbytes, b4) = bio_read b3 8
                                          in (case unpack_Q sbytes of
                                                Inl e \<Rightarrow> Inl e
                                              | Inr chunk_size \<Rightarrow>
                                                  Inr (dt, chunk_size, b4))))))))))"


subsection \<open>Python list indexing and slicing on natural indices\<close>

text \<open>\<open>xs[i]\<close> for \<open>i \<ge> 0\<close>: \<open>IndexError\<close> out of range.\<close>

definition py_index :: "'a list \<Rightarrow> nat \<Rightarrow> error + 'a" where
  "py_index xs i = (if i < length xs then Inr (xs ! i) else Inl IndexError)"

text \<open>
  \<open>xs[start:stop:step]\<close> for \<open>start, stop \<ge> 0\<close> and \<open>step \<ge> 1\<close>: both bounds are clipped
  to the length, the number of items is computed from them, and the items are read at
  \<open>start, start + step, ...\<close>.
\<close>

definition py_slice :: "'a list \<Rightarrow> nat \<Rightarrow> nat \<Rightarrow> nat \<Rightarrow> 'a list" where
  "py_slice xs start stop step =
     (let n = length xs;
          a = min start n;
          b = min stop n;
          m = (if a < b then (b - a - 1) div step + 1 else 0)
      in map (\<lambda>k. xs ! (a + k * step)) [0..<m])"

subsection \<open>\<open>PackedDataset\<close> (lines 41-78)\<close>

record pd =
  pd_filenames :: "string list"
  pd_n_chunks :: nat
  pd_block_size :: nat
  pd_seed :: int
  pd_shuffle :: bool
  pd_wrap :: bool
  pd_num_processes :: nat
  pd_process_rank :: nat

text \<open>The constructor with its defaults (lines 43-59).\<close>

definition PackedDataset :: "string list \<Rightarrow> nat \<Rightarrow> nat \<Rightarrow> pd" where
  "PackedDataset filenames n_chunks block_size =
     \<lparr>pd_filenames = filenames, pd_n_chunks = n_chunks, pd_block_size = block_size,
      pd_seed = 12345, pd_shuffle = True, pd_wrap = False,
      pd_num_processes = 1, pd_process_rank = 0\<rparr>"

text \<open>What \<open>get_worker_info()\<close> returns when it is not \<open>None\<close>.\<close>

record worker_info =
  wi_num_workers :: nat
  wi_id :: nat

text \<open>
  Lines 68-69: \<open>max_num_files = len(filenames) // num_shards * num_shards\<close> and
  \<open>filenames[shard_id:max_num_files:num_shards]\<close>. The division raises for \<open>num_shards = 0\<close>.
\<close>

definition shard_slice :: "'a list \<Rightarrow> nat \<Rightarrow> nat \<Rightarrow> error + 'a list" where
  "shard_slice filenames num_shards shard_id =
     (if num_shards = 0 then Inl ZeroDivisionError
      else
        (let max_num_files = length filenames div num_shards * num_shards
         in Inr (py_slice filenames shard_id max_num_files num_shards)))"

text \<open>Lines 62-69: the file list \<open>__iter__\<close> hands to the iterator it constructs.\<close>

definition pd_shard :: "pd \<Rightarrow> worker_info option \<Rightarrow> error + string list" where
  "pd_shard self worker_info =
     (let num_workers = (case worker_info of None \<Rightarrow> 1 | Some w \<Rightarrow> wi_num_workers w);
          worker_id = (case worker_info of None \<Rightarrow> 0 | Some w \<Rightarrow> wi_id w);
          num_shards = num_workers * pd_num_processes self;
          shard_id = pd_process_rank self * num_workers + worker_id
      in shard_slice (pd_filenames self) num_shards shard_id)"

text \<open>
  The positions of a list of length \<open>n\<close> that a shard receives: lines 68-69 run on the
  list of positions itself.
\<close>

definition shard_positions :: "nat \<Rightarrow> nat \<Rightarrow> nat \<Rightarrow> nat set" where
  "shard_positions n num_shards shard_id =
     (case shard_slice [0..<n] num_shards shard_id of Inl e \<Rightarrow> {} | Inr ps \<Rightarrow> set ps)"

subsection \<open>\<open>PackedDatasetIterator\<close> (lines 81-177)\<close>

text \<open>
  The attributes of the iterator. \<open>_chunk_size\<close> does not exist before the first header
  is read (\<open>None\<close> here). \<open>_mmaps\<close> is never appended to in this file, so it stays empty
  and \<open>_close_mmaps\<close> does nothing; it is left out. The generator state of type \<open>'g\<close> is
  the numpy generator the iterator owns.
\<close>

record 'g pdi =
  pdi_seed :: int
  pdi_shuffle :: bool
  pdi_rng :: "'g option"
  pdi_block_idxs :: "nat list"
  pdi_wrap :: bool
  pdi_filenames :: "string list"
  pdi_file_idx :: nat
  pdi_n_chunks :: nat
  pdi_dtype :: "dtype option"
  pdi_chunk_size :: "nat option"
  pdi_block_size :: nat
  pdi_n_blocks :: "nat option"
  pdi_buffers :: "byte list list"
  pdi_curr_idx :: nat

text \<open>
  The collaborators of the iterator: the byte fetch, \<open>np.random.default_rng\<close>,
  \<open>Generator.permutation\<close> (the permutation and the advanced generator), and the
  conversion \<open>astype(np.int64)\<close> of one floating-point element.
\<close>

record 'g env =
  env_fetch :: "string \<Rightarrow> byte list option"
  env_default_rng :: "int \<Rightarrow> 'g"
  env_permutation :: "'g \<Rightarrow> nat \<Rightarrow> nat list \<times> 'g"
  env_float_to_int64 :: "dtype \<Rightarrow> byte list \<Rightarrow> int"

text \<open>
  One pass of the loop body of \<open>_load_n_chunks\<close> (lines 139-145). \<open>bytes_io\<close> is a local
  variable of the method: it is bound only by the assignment under
  \<open>if self._dtype is None\<close>, and reading it unbound raises \<open>UnboundLocalError\<close>.
\<close>

definition load_chunk ::
  "(string \<Rightarrow> byte list option) \<Rightarrow> nat \<Rightarrow> bytes_io option \<Rightarrow> 'g pdi
     \<Rightarrow> (error \<times> 'g pdi) + (bytes_io option \<times> 'g pdi)" where
  "load_chunk fetch i bytes_io self =
     (case py_index (pdi_filenames self) (pdi_file_idx self + i) of
        Inl e \<Rightarrow> Inl (e, self)
      | Inr filename \<Rightarrow>
          (case (if pdi_dtype self = None
                 then (case pdi_read fetch filename of
                         Inl e \<Rightarrow> Inl (e, self)
                       | Inr (dt, chunk_size, b) \<Rightarrow>
                           (let self1 = self\<lparr>pdi_dtype := Some dt,
                                              pdi_chunk_size := Some chunk_size\<rparr>
                            in if pdi_block_size self1 = 0
                               then Inl (ZeroDivisionError, self1)
                               else Inr (Some b,
                                      self1\<lparr>pdi_n_blocks :=
                                               Some (chunk_size div pdi_block_size self1)\<rparr>)))
                 else Inr (bytes_io, self)) of
             Inl err \<Rightarrow> Inl err
           | Inr (bytes_io1, self2) \<Rightarrow>
               (case bytes_io1 of
                  None \<Rightarrow> Inl (UnboundLocalError, self2)
                | Some b \<Rightarrow>
                    (let (data, b') = bio_read_all (bio_seek b HDR_SIZE)
                     in Inr (Some b',
                          self2\<lparr>pdi_buffers := pdi_buffers self2 @ [data]\<rparr>)))))"

text \<open>The loop \<open>for i in range(self._n_chunks)\<close> over the values of \<open>i\<close>.\<close>

fun load_chunks ::
  "(string \<Rightarrow> byte list option) \<Rightarrow> nat list \<Rightarrow> bytes_io option \<Rightarrow> 'g pdi
     \<Rightarrow> (error \<times> 'g pdi) + 'g pdi" where
  "load_chunks fetch [] bytes_io self = Inr self"
| "load_chunks fetch (i # rest) bytes_io self =
     (case load_chunk fetch i bytes_io self of
        Inl err \<Rightarrow> Inl err
      | Inr (bytes_io1, self1) \<Rightarrow> load_chunks fetch rest bytes_io1 self1)"

text \<open>
  \<open>_load_n_chunks\<close> (lines 127-153). \<open>n_chunks * None\<close> raises \<open>TypeError\<close> when no header
  was ever read; \<open>None.permutation\<close> raises \<open>AttributeError\<close>.
\<close>

definition pdi_load_n_chunks :: "'g env \<Rightarrow> 'g pdi \<Rightarrow> (error \<times> 'g pdi) + 'g pdi" where
  "pdi_load_n_chunks env self =
     (let self0 = self\<lparr>pdi_buffers := []\<rparr>
      in case (if pdi_n_chunks self0 > length (drop (pdi_file_idx self0) (pdi_filenames self0))
               then (if \<not> pdi_wrap self0 then Inl (StopIteration, self0)
                     else Inr (self0\<lparr>pdi_file_idx := 0\<rparr>))
               else Inr self0) of
           Inl err \<Rightarrow> Inl err
         | Inr self1 \<Rightarrow>
             (case load_chunks (env_fetch env) [0..<pdi_n_chunks self1] None self1 of
                Inl err \<Rightarrow> Inl err
              | Inr self2 \<Rightarrow>
                  (let self3 = self2\<lparr>pdi_file_idx := pdi_file_idx self2 + pdi_n_chunks self2\<rparr>
                   in case pdi_n_blocks self3 of
                        None \<Rightarrow> Inl (TypeError, self3)
                      | Some n_blocks \<Rightarrow>
                          (let n_all_blocks = pdi_n_chunks self3 * n_blocks
                           in if pdi_shuffle self3
                              then (case pdi_rng self3 of
                                      None \<Rightarrow> Inl (AttributeError, self3)
                                    | Some g \<Rightarrow>
                                        (let (p, g') = env_permutation env g n_all_blocks
                                         in Inr (self3\<lparr>pdi_rng := Some g',
                                                        pdi_block_idxs := p,
                                                        pdi_curr_idx := 0\<rparr>)))
                              else Inr (self3\<lparr>pdi_block_idxs := [0..<n_all_blocks],
                                              pdi_curr_idx := 0\<rparr>)))))"

text \<open>
  \<open>__init__\<close> (lines 83-108): the attributes as assigned before the call of
  \<open>_load_n_chunks\<close>, then that call; an exception of the first load leaves no object.
\<close>

definition pdi_fresh ::
  "'g env \<Rightarrow> string list \<Rightarrow> nat \<Rightarrow> nat \<Rightarrow> int \<Rightarrow> bool \<Rightarrow> bool \<Rightarrow> 'g pdi" where
  "pdi_fresh env filenames n_chunks block_size seed shuffle wrap =
     \<lparr>pdi_seed = seed, pdi_shuffle = shuffle,
      pdi_rng = (if shuffle then Some (env_default_rng env seed) else None),
      pdi_block_idxs = [], pdi_wrap = wrap, pdi_filenames = filenames,
      pdi_file_idx = 0, pdi_n_chunks = n_chunks, pdi_dtype = None,
      pdi_chunk_size = None, pdi_block_size = block_size,
      pdi_n_blocks = None, pdi_buffers = [], pdi_curr_idx = 0\<rparr>"

definition pdi_init ::
  "'g env \<Rightarrow> string list \<Rightarrow> nat \<Rightarrow> nat \<Rightarrow> int \<Rightarrow> bool \<Rightarrow> bool \<Rightarrow> error + 'g pdi" where
  "pdi_init env filenames n_chunks block_size seed shuffle wrap =
     (case pdi_load_n_chunks env
             (pdi_fresh env filenames n_chunks block_size seed shuffle wrap) of
        Inl (e, self') \<Rightarrow> Inl e
      | Inr self' \<Rightarrow> Inr self')"

text \<open>\<open>PackedDataset.__iter__\<close> (lines 61-78).\<close>

definition pd_iter :: "'g env \<Rightarrow> pd \<Rightarrow> worker_info option \<Rightarrow> error + 'g pdi" where
  "pd_iter env self worker_info =
     (case pd_shard self worker_info of
        Inl e \<Rightarrow> Inl e
      | Inr filenames \<Rightarrow>
          pdi_init env filenames (pd_n_chunks self) (pd_block_size self) (pd_seed self)
            (pd_shuffle self) (pd_wrap self))"

subsection \<open>Elements of a buffer\<close>

text \<open>\<open>np.dtype(d).itemsize\<close>.\<close>

fun itemsize :: "dtype \<Rightarrow> nat" where
  "itemsize UInt8 = 1"
| "itemsize Int8 = 1"
| "itemsize Int16 = 2"
| "itemsize Int32 = 4"
| "itemsize Int64 = 8"
| "itemsize Float32 = 4"
| "itemsize Float64 = 8"
| "itemsize UInt16 = 2"

text \<open>The two's-complement value of an unsigned \<open>bits\<close>-bit number.\<close>

definition twos_complement :: "nat \<Rightarrow> nat \<Rightarrow> int" where
  "twos_complement bits u = (if u < 2 ^ (bits - 1) then int u else int u - 2 ^ bits)"

text \<open>
  \<open>astype(np.int64)\<close> on one element, given its bytes (little-endian, the byte order of
  the machines the demo runs on): the integer types keep their value; a floating-point
  element goes through the conversion that is a parameter.
\<close>

fun astype_int64 :: "(dtype \<Rightarrow> byte list \<Rightarrow> int) \<Rightarrow> dtype \<Rightarrow> byte list \<Rightarrow> int" where
  "astype_int64 f UInt8 bs = int (le_uint bs)"
| "astype_int64 f Int8 bs = twos_complement 8 (le_uint bs)"
| "astype_int64 f Int16 bs = twos_complement 16 (le_uint bs)"
| "astype_int64 f Int32 bs = twos_complement 32 (le_uint bs)"
| "astype_int64 f Int64 bs = twos_complement 64 (le_uint bs)"
| "astype_int64 f Float32 bs = f Float32 bs"
| "astype_int64 f Float64 bs = f Float64 bs"
| "astype_int64 f UInt16 bs = int (le_uint bs)"

text \<open>
  \<open>np.frombuffer(buffer, dtype=d, count=cnt, offset=offset)\<close> for \<open>cnt \<ge> 0\<close>, as the
  list of the elements' bytes: \<open>ValueError\<close> when the offset is beyond the buffer or the
  buffer is smaller than the requested size.
\<close>

definition frombuffer :: "byte list \<Rightarrow> dtype \<Rightarrow> nat \<Rightarrow> nat \<Rightarrow> error + byte list list" where
  "frombuffer buffer d cnt offset =
     (if offset > length buffer then Inl ValueError
      else if length buffer - offset < cnt * itemsize d then Inl ValueError
      else Inr (map (\<lambda>k. take (itemsize d) (drop (offset + k * itemsize d) buffer))
                  [0..<cnt]))"

text \<open>
  \<open>__next__\<close> (lines 163-177). \<open>np.dtype(None)\<close> is \<open>float64\<close>. The sample is the list of
  the \<open>int64\<close> values of the tensor.
\<close>

definition pdi_next :: "'g env \<Rightarrow> 'g pdi \<Rightarrow> (error \<times> 'g pdi) + (int list \<times> 'g pdi)" where
  "pdi_next env self =
     (case (if pdi_curr_idx self \<ge> length (pdi_block_idxs self)
            then pdi_load_n_chunks env self else Inr self) of
        Inl err \<Rightarrow> Inl err
      | Inr self1 \<Rightarrow>
          (case py_index (pdi_block_idxs self1) (pdi_curr_idx self1) of
             Inl e \<Rightarrow> Inl (e, self1)
           | Inr block_idx \<Rightarrow>
               (case pdi_n_blocks self1 of
                  None \<Rightarrow> Inl (TypeError, self1)
                | Some n_blocks \<Rightarrow>
                    if n_blocks = 0 then Inl (ZeroDivisionError, self1)
                    else
                      (let chunk_id = block_idx div n_blocks
                       in case py_index (pdi_buffers self1) chunk_id of
                            Inl e \<Rightarrow> Inl (e, self1)
                          | Inr buffer \<Rightarrow>
                              (let elem_id = (block_idx mod n_blocks) * pdi_block_size self1;
                                   d = (case pdi_dtype self1 of None \<Rightarrow> Float64 | Some d \<Rightarrow> d);
                                   offset = itemsize d * elem_id
                               in case frombuffer buffer d (pdi_block_size self1) offset of
                                    Inl e \<Rightarrow> Inl (e, self1)
                                  | Inr arr \<Rightarrow>
                                      Inr (map (astype_int64 (env_float_to_int64 env) d) arr,
                                           self1\<lparr>pdi_curr_idx := pdi_curr_idx self1 + 1\<rparr>))))))"

subsection \<open>\<open>random.Random.choices\<close> with \<open>k = 1\<close>\<close>





subsection \<open>\<open>CombinedDataset\<close> and \<open>CombinedDatasetIterator\<close> (lines 180-206)\<close>










subsection \<open>Consumers\<close>

text \<open>
  One call of \<open>next\<close> as seen by the consumer: the sample or the exception, and the
  iterator afterwards.
\<close>

definition pull :: "('s \<Rightarrow> (error \<times> 's) + ('a \<times> 's)) \<Rightarrow> 's \<Rightarrow> (error + 'a) \<times> 's" where
  "pull nxt st = (case nxt st of Inl (e, st') \<Rightarrow> (Inl e, st') | Inr (x, st') \<Rightarrow> (Inr x, st'))"

text \<open>The outcomes of the first \<open>n\<close> calls of \<open>next\<close> on one iterator.\<close>

fun outcomes :: "('s \<Rightarrow> (error \<times> 's) + ('a \<times> 's)) \<Rightarrow> nat \<Rightarrow> 's \<Rightarrow> (error + 'a) list" where
  "outcomes nxt 0 st = []"
| "outcomes nxt (Suc n) st = (let (out, st') = pull nxt st in out # outcomes nxt n st')"


subsection \<open>Concrete files and collaborators\<close>

text \<open>A packed file with version 1, the given dtype code, element count and payload.\<close>

definition mk_file :: "byte \<Rightarrow> byte \<Rightarrow> byte list \<Rightarrow> byte list" where
  "mk_file c n payload =
     HDR_MAGIC @ [1, 0, 0, 0, 0, 0, 0, 0] @ [c] @ [n, 0, 0, 0, 0, 0, 0, 0] @ payload"

text \<open>A header cut after the dtype code byte: magic, version 1, code 1, no count field.\<close>

definition truncated_file :: "byte list" where
  "truncated_file = HDR_MAGIC @ [1, 0, 0, 0, 0, 0, 0, 0] @ [1]"

text \<open>
  Four \<open>uint8\<close> files of two elements each and the truncated header; every other path
  cannot be fetched.
\<close>

definition demo_fetch :: "string \<Rightarrow> byte list option" where
  "demo_fetch path =
     (if path = ''a'' then Some (mk_file 1 2 [10, 11])
      else if path = ''b'' then Some (mk_file 1 2 [20, 21])
      else if path = ''c'' then Some (mk_file 1 2 [30, 31])
      else if path = ''d'' then Some (mk_file 1 2 [40, 41])
      else if path = ''t'' then Some truncated_file
      else None)"

text \<open>
  A generator that counts its draws and always returns the reversed range as the
  permutation.
\<close>

definition demo_env :: "nat env" where
  "demo_env =
     \<lparr>env_fetch = demo_fetch, env_default_rng = (\<lambda>seed. nat seed),
      env_permutation = (\<lambda>g n. (rev [0..<n], Suc g)),
      env_float_to_int64 = (\<lambda>d bs. 0)\<rparr>"

text \<open>
  The iterator over a shard whose first file is \<open>''a''\<close>, with \<open>n_chunks = 2\<close>,
  \<open>block_size = 1\<close> and no shuffling, after its construction and \<open>k\<close> samples.
\<close>

definition demo_state :: "string list \<Rightarrow> bool \<Rightarrow> nat \<Rightarrow> nat pdi" where
  "demo_state fs wrap k =
     \<lparr>pdi_seed = 0, pdi_shuffle = False, pdi_rng = None,
      pdi_block_idxs = [0, 1, 2, 3], pdi_wrap = wrap,
      pdi_filenames = fs, pdi_file_idx = 2,
      pdi_n_chunks = 2, pdi_dtype = Some UInt8, pdi_chunk_size = Some 2,
      pdi_block_size = 1, pdi_n_blocks = Some 2,
      pdi_buffers = [[10, 11], [10, 11]], pdi_curr_idx = k\<rparr>"





section \<open>Header parsing\<close>

lemma dtypes_None_iff: "dtypes c = None \<longleftrightarrow> c \<notin> {1..8}"
  unfolding dtypes_def by (auto simp: numeral_eq_Suc)

lemma length_HDR_MAGIC: "length HDR_MAGIC = 7"
  by (simp add: HDR_MAGIC_def)

lemma bio_read_at:
  "bio_read \<lparr>content = bs, pos = p\<rparr> n =
     (take n (drop p bs), \<lparr>content = bs, pos = p + min n (length bs - p)\<rparr>)"
  by (simp add: bio_read_def Let_def min.commute)

lemma take1_drop: "k < length bs \<Longrightarrow> take 1 (drop k bs) = [bs ! k]"
  by (simp add: take_Suc_conv_app_nth)

text \<open>
  The outcome of \<open>_read\<close> on fetched bytes \<open>bs\<close>, check by check in the order of the
  source: magic, version field present, version value, code byte present, code known,
  count field present.
\<close>

lemma pdi_read_eq:
  assumes "fetch path = Some bs"
  shows "pdi_read fetch path =
    (if take 7 bs \<noteq> HDR_MAGIC then Inl AssertionError
     else if length bs < 15 then Inl StructError
     else if le_uint (take 8 (drop 7 bs)) \<noteq> 1 then Inl AssertionError
     else if length bs < 16 then Inl StructError
     else case dtypes (unat (bs ! 15)) of
            None \<Rightarrow> Inl KeyError
          | Some dt \<Rightarrow>
              if length bs < 24 then Inl StructError
              else Inr (dt, le_uint (take 8 (drop 16 bs)), \<lparr>content = bs, pos = 24\<rparr>))"
proof (cases "take 7 bs = HDR_MAGIC")
  case False
  then show ?thesis using assms
    by (simp add: pdi_read_def BytesIO_def bio_read_at length_HDR_MAGIC)
next
  case magic: True
  then have "length (take 7 bs) = 7" by (simp add: length_HDR_MAGIC)
  then have len7: "7 \<le> length bs" by simp
  have step1: "pdi_read fetch path =
     (let (vbytes, b2) = bio_read \<lparr>content = bs, pos = 7\<rparr> 8
      in (case unpack_Q vbytes of
            Inl e \<Rightarrow> Inl e
          | Inr version \<Rightarrow>
              if version \<noteq> 1 then Inl AssertionError
              else
                (let (cbytes, b3) = bio_read b2 1
                 in (case unpack_B cbytes of
                       Inl e \<Rightarrow> Inl e
                     | Inr dtype_code \<Rightarrow>
                         (case dtypes dtype_code of
                            None \<Rightarrow> Inl KeyError
                          | Some dt \<Rightarrow>
                              (let (sbytes, b4) = bio_read b3 8
                               in (case unpack_Q sbytes of
                                     Inl e \<Rightarrow> Inl e
                                   | Inr chunk_size \<Rightarrow> Inr (dt, chunk_size, b4))))))))"
    using assms magic len7
    by (simp add: pdi_read_def BytesIO_def bio_read_at length_HDR_MAGIC)
  show ?thesis
  proof (cases "length bs < 15")
    case True
    then show ?thesis using magic len7 unfolding step1
      by (simp add: bio_read_at unpack_Q_def)
  next
    case len15: False
    show ?thesis
    proof (cases "le_uint (take 8 (drop 7 bs)) = 1")
      case False
      then show ?thesis using magic len15 unfolding step1
        by (simp add: bio_read_at unpack_Q_def)
    next
      case version: True
      show ?thesis
      proof (cases "length bs < 16")
        case True
        then show ?thesis using magic len15 version unfolding step1
          by (simp add: bio_read_at unpack_Q_def unpack_B_def)
      next
        case len16: False
        then have c: "take (Suc 0) (drop 15 bs) = [bs ! 15]"
          using take1_drop [of 15 bs] by simp
        show ?thesis
        proof (cases "length bs < 24")
          case True
          then show ?thesis using magic len15 version len16 c unfolding step1
            by (auto simp: bio_read_at unpack_Q_def unpack_B_def split: option.splits)
        next
          case False
          then show ?thesis using magic len15 version len16 c unfolding step1
            by (simp add: bio_read_at unpack_Q_def unpack_B_def split: option.splits)
        qed
      qed
    qed
  qed
qed

lemma demo_fetch_a: "demo_fetch ''a'' = Some (mk_file 1 2 [10, 11])"
  by (simp add: demo_fetch_def)

lemma demo_read_a:
  "pdi_read demo_fetch ''a'' =
     Inr (UInt8, 2, \<lparr>content = mk_file 1 2 [10, 11], pos = 24\<rparr>)"
  by (simp add: pdi_read_eq [of demo_fetch "''a''" "mk_file 1 2 [10, 11]", OF demo_fetch_a]
      mk_file_def HDR_MAGIC_def dtypes_def)

lemma demo_read_t: "pdi_read demo_fetch ''t'' = Inl StructError"
  by (simp add: pdi_read_eq [of demo_fetch "''t''" truncated_file] demo_fetch_def
      truncated_file_def HDR_MAGIC_def dtypes_def)

text \<open>
  C5, as stated, at a concrete input: the file \<open>''t''\<close> holds the magic marker, version 1
  and the recognised code 1, yet \<open>_read\<close> fails on it, because the element count field
  is missing. None of the three conditions of the claim holds there.
\<close>

theorem header_failure_iff_counterexample:
  "pdi_read demo_fetch ''t'' = Inl StructError
   \<and> demo_fetch ''t'' = Some truncated_file
   \<and> take 7 truncated_file = HDR_MAGIC
   \<and> unpack_Q (take 8 (drop 7 truncated_file)) = Inr 1
   \<and> unpack_B (take 1 (drop 15 truncated_file)) = Inr 1
   \<and> dtypes 1 = Some UInt8"
  by (simp add: demo_read_t demo_fetch_def truncated_file_def HDR_MAGIC_def dtypes_def
      unpack_Q_def unpack_B_def)

text \<open>
  C5, amended: on fetched bytes \<open>bs\<close>, \<open>_read\<close> fails if and only if the first 7 bytes are
  not the magic marker, or \<open>bs\<close> is shorter than the 24 header bytes, or the little-endian
  version field is not 1, or the code byte is not one of the codes 1 to 8. The failure is
  an \<open>AssertionError\<close>, a \<open>struct.error\<close> or a \<open>KeyError\<close>. On success it returns the dtype
  of the code byte, the little-endian element count of bytes 16 to 23 and a reader at
  position 24, from which the rest of the file, the payload, is read. The table maps the
  codes 1 to 8 to uint8, int8, int16, int32, int64, float32, float64, uint16.
\<close>

theorem pdi_read_fails_iff:
  assumes "fetch path = Some bs"
  shows "((\<exists>e. pdi_read fetch path = Inl e) \<longleftrightarrow>
            (take 7 bs \<noteq> HDR_MAGIC \<or> length bs < HDR_SIZE
             \<or> le_uint (take 8 (drop 7 bs)) \<noteq> 1
             \<or> le_uint (take 1 (drop 15 bs)) \<notin> {1..8}))
       \<and> (\<forall>e. pdi_read fetch path = Inl e \<longrightarrow> e \<in> {AssertionError, StructError, KeyError})
       \<and> (\<forall>dt n b. pdi_read fetch path = Inr (dt, n, b) \<longrightarrow>
            dtypes (le_uint (take 1 (drop 15 bs))) = Some dt
            \<and> n = le_uint (take 8 (drop 16 bs))
            \<and> content b = bs \<and> pos b = HDR_SIZE
            \<and> fst (bio_read_all b) = drop HDR_SIZE bs)
       \<and> map dtypes [1..<9] =
           map Some [UInt8, Int8, Int16, Int32, Int64, Float32, Float64, UInt16]"
proof -
  have code: "16 \<le> length bs \<Longrightarrow> le_uint (take 1 (drop 15 bs)) = unat (bs ! 15)"
    using take1_drop [of 15 bs] by simp
  have tbl: "map dtypes [1..<9] =
           map Some [UInt8, Int8, Int16, Int32, Int64, Float32, Float64, UInt16]"
    by (simp add: dtypes_def upt_rec)
  have fails: "(\<exists>e. pdi_read fetch path = Inl e) \<longleftrightarrow>
            (take 7 bs \<noteq> HDR_MAGIC \<or> length bs < HDR_SIZE
             \<or> le_uint (take 8 (drop 7 bs)) \<noteq> 1
             \<or> le_uint (take 1 (drop 15 bs)) \<notin> {1..8})"
    unfolding pdi_read_eq [of fetch path bs, OF assms] HDR_SIZE_def
    using code dtypes_None_iff [of "unat (bs ! 15)"]
    by (auto split: option.splits)
  have kinds: "\<forall>e. pdi_read fetch path = Inl e \<longrightarrow> e \<in> {AssertionError, StructError, KeyError}"
    unfolding pdi_read_eq [of fetch path bs, OF assms]
    by (auto split: option.splits if_splits)
  have ok: "\<forall>dt n b. pdi_read fetch path = Inr (dt, n, b) \<longrightarrow>
            dtypes (le_uint (take 1 (drop 15 bs))) = Some dt
            \<and> n = le_uint (take 8 (drop 16 bs))
            \<and> content b = bs \<and> pos b = HDR_SIZE
            \<and> fst (bio_read_all b) = drop HDR_SIZE bs"
    unfolding pdi_read_eq [of fetch path bs, OF assms] HDR_SIZE_def
    using code
    by (auto simp: bio_read_all_def split: option.splits if_splits)
  show ?thesis using fails kinds ok tbl by blast
qed

text \<open>The amended C5 at the well-formed file \<open>''a''\<close>.\<close>

theorem pdi_read_fails_iff_witness:
  "demo_fetch ''a'' = Some (mk_file 1 2 [10, 11])
   \<and> pdi_read demo_fetch ''a'' = Inr (UInt8, 2, \<lparr>content = mk_file 1 2 [10, 11], pos = 24\<rparr>)
   \<and> dtypes (le_uint (take 1 (drop 15 (mk_file 1 2 [10, 11])))) = Some UInt8
   \<and> pos \<lparr>content = mk_file 1 2 [10, 11], pos = 24\<rparr> = HDR_SIZE
   \<and> fst (bio_read_all \<lparr>content = mk_file 1 2 [10, 11], pos = 24\<rparr>) = [10, 11]"
proof -
  have d: "drop HDR_SIZE (mk_file 1 2 [10, 11]) = [10, 11]"
    by (simp add: mk_file_def HDR_MAGIC_def HDR_SIZE_def)
  show ?thesis
    using pdi_read_fails_iff [of demo_fetch "''a''" "mk_file 1 2 [10, 11]", OF demo_fetch_a]
      demo_fetch_a demo_read_a d
    by (simp add: HDR_SIZE_def)
qed

section \<open>Shard assignment\<close>

lemma slice_count:
  fixes q ns sid :: nat
  assumes "0 < q" "sid < ns"
  shows "(q * ns - sid - 1) div ns + 1 = q"
proof -
  obtain q' where q: "q = Suc q'" using assms(1) by (cases q) auto
  have "q * ns - sid - 1 = (ns - sid - 1) + q' * ns"
    using assms(2) by (simp add: q)
  moreover have "(ns - sid - 1) < ns" using assms(2) by simp
  ultimately have "(q * ns - sid - 1) div ns = q'" by simp
  then show ?thesis by (simp add: q)
qed

lemma py_slice_shard:
  assumes "1 \<le> ns" "sid < ns"
  shows "py_slice xs sid (length xs div ns * ns) ns =
           map (\<lambda>k. xs ! (sid + k * ns)) [0..<length xs div ns]"
proof (cases "length xs div ns = 0")
  case True
  then show ?thesis by (simp add: py_slice_def)
next
  case False
  then have q: "0 < length xs div ns" by simp
  have le: "length xs div ns * ns \<le> length xs" by simp
  have "1 * ns \<le> length xs div ns * ns" using q by (intro mult_le_mono1) simp
  then have lt: "sid < length xs div ns * ns" using assms(2) by linarith
  from lt le have "sid \<le> length xs" by linarith
  then have a: "min sid (length xs) = sid" by simp
  have b: "min (length xs div ns * ns) (length xs) = length xs div ns * ns"
    using le by simp
  show ?thesis
    unfolding py_slice_def Let_def a b
    using lt slice_count [OF q assms(2)] by simp
qed

lemma shard_slice_eq:
  assumes "1 \<le> ns" "sid < ns"
  shows "shard_slice xs ns sid = Inr (map (\<lambda>k. xs ! (sid + k * ns)) [0..<length xs div ns])"
  using assms py_slice_shard [OF assms, of xs] by (simp add: shard_slice_def)

lemma shard_positions_eq:
  assumes "1 \<le> ns" "sid < ns"
  shows "shard_positions n ns sid = {sid + k * ns | k. k < n div ns}"
proof -
  have "\<And>k. k < n div ns \<Longrightarrow> sid + k * ns < n"
  proof -
    fix k assume "k < n div ns"
    then have "Suc k \<le> n div ns" by simp
    then have "Suc k * ns \<le> n div ns * ns" by (rule mult_le_mono1)
    also have "\<dots> \<le> n" by simp
    finally show "sid + k * ns < n" using assms(2) by simp
  qed
  then have "map (\<lambda>k. [0..<n] ! (sid + k * ns)) [0..<n div ns] = map (\<lambda>k. sid + k * ns) [0..<n div ns]"
    by simp
  then show ?thesis
    unfolding shard_positions_def shard_slice_eq [OF assms, of "[0..<n]"] by auto
qed

lemma shard_positions_disjoint:
  assumes "1 \<le> ns" "s < ns" "t < ns" "s \<noteq> t"
  shows "shard_positions n ns s \<inter> shard_positions n ns t = {}"
proof -
  have "\<And>k j. s + k * ns = t + j * ns \<Longrightarrow> False"
  proof -
    fix k j assume "s + k * ns = t + j * ns"
    then have "(s + k * ns) mod ns = (t + j * ns) mod ns" by simp
    then show False using assms by simp
  qed
  then show ?thesis
    unfolding shard_positions_eq [OF assms(1,2)] shard_positions_eq [OF assms(1,3)]
    by blast
qed

lemma shard_positions_union:
  assumes "1 \<le> ns"
  shows "(\<Union>s<ns. shard_positions n ns s) = {0..<n div ns * ns}"
proof -
  have eq: "(\<Union>s<ns. shard_positions n ns s) = (\<Union>s<ns. {s + k * ns | k. k < n div ns})"
    using shard_positions_eq [OF assms] by simp
  have "(\<Union>s<ns. {s + k * ns | k. k < n div ns}) = {0..<n div ns * ns}"
  proof (intro set_eqI iffI)
    fix i assume "i \<in> (\<Union>s<ns. {s + k * ns | k. k < n div ns})"
    then obtain s k where sk: "s < ns" "k < n div ns" "i = s + k * ns" by auto
    from sk(2) have "Suc k \<le> n div ns" by simp
    then have "Suc k * ns \<le> n div ns * ns" by (rule mult_le_mono1)
    then show "i \<in> {0..<n div ns * ns}" using sk by simp
  next
    fix i assume "i \<in> {0..<n div ns * ns}"
    then have i: "i < n div ns * ns" by simp
    have ns: "0 < ns" using assms by simp
    have "i div ns < n div ns" using i ns
      by (simp add: less_mult_imp_div_less)
    moreover have "i mod ns < ns" using ns by simp
    moreover have "i = i mod ns + (i div ns) * ns" by simp
    ultimately show "i \<in> (\<Union>s<ns. {s + k * ns | k. k < n div ns})" by blast
  qed
  then show ?thesis using eq by simp
qed

text \<open>
  C2: for every file list and every \<open>num_shards \<ge> 1\<close>, the list assigned to a
  \<open>shard_id < num_shards\<close> is the strided slice \<open>shard_id, shard_id + num_shards, ...\<close> of
  \<open>len(filenames) // num_shards\<close> entries, that is, cut at
  \<open>len(filenames) // num_shards * num_shards\<close>. The positions of distinct shards are
  disjoint, together they are exactly the positions below that bound (so their number
  is the bound, and no position at or beyond it belongs to a shard), and for a list
  without repeated names the shards' name sets are disjoint as well. With a worker
  identity, \<open>__iter__\<close> uses \<open>num_shards = num_workers * num_processes\<close> and
  \<open>shard_id = process_rank * num_workers + worker_id\<close>.
\<close>

theorem shard_slices_partition:
  assumes "1 \<le> num_shards"
  shows "(\<forall>shard_id<num_shards.
            shard_slice filenames num_shards shard_id =
              Inr (map (\<lambda>k. filenames ! (shard_id + k * num_shards))
                     [0..<length filenames div num_shards])
            \<and> shard_positions (length filenames) num_shards shard_id =
                {shard_id + k * num_shards | k. k < length filenames div num_shards})
       \<and> (\<forall>s<num_shards. \<forall>t<num_shards. s \<noteq> t \<longrightarrow>
            shard_positions (length filenames) num_shards s
              \<inter> shard_positions (length filenames) num_shards t = {})
       \<and> (\<Union>s<num_shards. shard_positions (length filenames) num_shards s) =
            {0..<length filenames div num_shards * num_shards}
       \<and> card (\<Union>s<num_shards. shard_positions (length filenames) num_shards s) =
            length filenames div num_shards * num_shards
       \<and> (\<forall>i s. length filenames div num_shards * num_shards \<le> i \<longrightarrow> s < num_shards \<longrightarrow>
            i \<notin> shard_positions (length filenames) num_shards s)
       \<and> (distinct filenames \<longrightarrow>
            (\<forall>s<num_shards. \<forall>t<num_shards. \<forall>fs gs. s \<noteq> t \<longrightarrow>
               shard_slice filenames num_shards s = Inr fs \<longrightarrow>
               shard_slice filenames num_shards t = Inr gs \<longrightarrow> set fs \<inter> set gs = {}))
       \<and> pd_shard self (Some w) =
            shard_slice (pd_filenames self) (wi_num_workers w * pd_num_processes self)
              (pd_process_rank self * wi_num_workers w + wi_id w)"
proof -
  let ?n = "length filenames"
  let ?q = "?n div num_shards"
  have A: "\<forall>shard_id<num_shards.
            shard_slice filenames num_shards shard_id =
              Inr (map (\<lambda>k. filenames ! (shard_id + k * num_shards)) [0..<?q])
            \<and> shard_positions ?n num_shards shard_id =
                {shard_id + k * num_shards | k. k < ?q}"
    using shard_slice_eq [OF assms] shard_positions_eq [OF assms] by blast
  have B: "\<forall>s<num_shards. \<forall>t<num_shards. s \<noteq> t \<longrightarrow>
            shard_positions ?n num_shards s \<inter> shard_positions ?n num_shards t = {}"
    using shard_positions_disjoint [OF assms] by blast
  have C: "(\<Union>s<num_shards. shard_positions ?n num_shards s) = {0..<?q * num_shards}"
    by (rule shard_positions_union [OF assms])
  have D: "card (\<Union>s<num_shards. shard_positions ?n num_shards s) = ?q * num_shards"
    unfolding C by simp
  have E: "\<forall>i s. ?q * num_shards \<le> i \<longrightarrow> s < num_shards \<longrightarrow>
            i \<notin> shard_positions ?n num_shards s"
  proof (intro allI impI notI)
    fix i s assume i: "?q * num_shards \<le> i" and s: "s < num_shards"
      and "i \<in> shard_positions ?n num_shards s"
    then have "i \<in> (\<Union>s<num_shards. shard_positions ?n num_shards s)" by blast
    then have "i < ?q * num_shards" unfolding C by simp
    then show False using i by simp
  qed
  have F: "distinct filenames \<longrightarrow>
            (\<forall>s<num_shards. \<forall>t<num_shards. \<forall>fs gs. s \<noteq> t \<longrightarrow>
               shard_slice filenames num_shards s = Inr fs \<longrightarrow>
               shard_slice filenames num_shards t = Inr gs \<longrightarrow> set fs \<inter> set gs = {})"
  proof (intro impI allI)
    fix s t fs gs
    assume d: "distinct filenames" and s: "s < num_shards" and t: "t < num_shards"
      and ne: "s \<noteq> t"
      and fs: "shard_slice filenames num_shards s = Inr fs"
      and gs: "shard_slice filenames num_shards t = Inr gs"
    have bound: "\<And>r k. r < num_shards \<Longrightarrow> k < ?q \<Longrightarrow> r + k * num_shards < ?n"
    proof -
      fix r k assume r: "r < num_shards" and "k < ?q"
      then have "Suc k \<le> ?q" by simp
      then have "Suc k * num_shards \<le> ?q * num_shards" by (rule mult_le_mono1)
      also have "\<dots> \<le> ?n" by simp
      finally show "r + k * num_shards < ?n" using r by simp
    qed
    have fs': "fs = map (\<lambda>k. filenames ! (s + k * num_shards)) [0..<?q]"
      using fs shard_slice_eq [OF assms s, of filenames] by simp
    have gs': "gs = map (\<lambda>k. filenames ! (t + k * num_shards)) [0..<?q]"
      using gs shard_slice_eq [OF assms t, of filenames] by simp
    show "set fs \<inter> set gs = {}"
    proof (rule ccontr)
      assume "set fs \<inter> set gs \<noteq> {}"
      then obtain x where "x \<in> set fs" "x \<in> set gs" by blast
      then obtain k j where k: "k < ?q" "x = filenames ! (s + k * num_shards)"
        and j: "j < ?q" "x = filenames ! (t + j * num_shards)"
        unfolding fs' gs' by auto
      have "s + k * num_shards = t + j * num_shards"
        using d k j bound [OF s k(1)] bound [OF t j(1)]
        by (simp add: nth_eq_iff_index_eq)
      then have "(s + k * num_shards) mod num_shards = (t + j * num_shards) mod num_shards"
        by simp
      then show False using s t ne by simp
    qed
  qed
  have G: "pd_shard self (Some w) =
            shard_slice (pd_filenames self) (wi_num_workers w * pd_num_processes self)
              (pd_process_rank self * wi_num_workers w + wi_id w)"
    by (simp add: pd_shard_def Let_def)
  show ?thesis using A B C D E F G by blast
qed

text \<open>C2 at five files and two shards: the fifth file belongs to no shard.\<close>

theorem shard_slices_partition_witness:
  "(1::nat) \<le> 2
   \<and> shard_slice [''a'', ''b'', ''c'', ''d'', ''e''] 2 0 = Inr [''a'', ''c'']
   \<and> shard_slice [''a'', ''b'', ''c'', ''d'', ''e''] 2 1 = Inr [''b'', ''d'']
   \<and> shard_positions 5 2 0 = {0, 2}
   \<and> shard_positions 5 2 1 = {1, 3}
   \<and> shard_positions 5 2 0 \<inter> shard_positions 5 2 1 = {}
   \<and> (\<Union>s<2. shard_positions 5 2 s) = {0..<4}
   \<and> 4 \<notin> shard_positions 5 2 0 \<and> 4 \<notin> shard_positions 5 2 1
   \<and> distinct [''a'', ''b'', ''c'', ''d'', ''e'']
   \<and> set [''a'', ''c''] \<inter> set [''b'', ''d''] = {}"
proof -
  have h: "(1::nat) \<le> 2" by simp
  have len: "length [''a'', ''b'', ''c'', ''d'', ''e''] = 5" by simp
  note T = shard_slices_partition [OF h, of "[''a'', ''b'', ''c'', ''d'', ''e'']"
      "PackedDataset [] 1 1" "\<lparr>wi_num_workers = 2, wi_id = 1\<rparr>", unfolded len]
  have s0: "shard_slice [''a'', ''b'', ''c'', ''d'', ''e''] 2 0 = Inr [''a'', ''c'']"
    by (simp add: shard_slice_def py_slice_def upt_rec)
  have s1: "shard_slice [''a'', ''b'', ''c'', ''d'', ''e''] 2 1 = Inr [''b'', ''d'']"
    by (simp add: shard_slice_def py_slice_def upt_rec)
  have p0: "shard_positions 5 2 0 = {0, 2}"
    by (auto simp: shard_positions_def shard_slice_def py_slice_def upt_rec)
  have p1: "shard_positions 5 2 1 = {1, 3}"
    by (auto simp: shard_positions_def shard_slice_def py_slice_def upt_rec)
  have u: "(\<Union>s<2. shard_positions 5 2 s) = {0..<4}"
    using T [THEN conjunct2, THEN conjunct2, THEN conjunct1] by simp
  show ?thesis using h s0 s1 p0 p1 u by simp
qed

lemma py_slice_all: "py_slice xs 0 (length xs) (Suc 0) = xs"
proof -
  have "map (\<lambda>k. xs ! k) [0..<length xs] = xs" by (rule map_nth)
  then show ?thesis by (cases "length xs = 0") (simp_all add: py_slice_def)
qed

text \<open>
  C10: with no worker identity, \<open>__iter__\<close> computes \<open>num_shards = num_processes\<close> and
  \<open>shard_id = process_rank\<close>, exactly as for the single worker \<open>num_workers = 1\<close>,
  \<open>id = 0\<close>; with \<open>num_processes = 1\<close> (and the rank 0 of the sole process) the iterator
  is constructed on the whole file list.
\<close>

theorem pd_iter_no_worker_info:
  "pd_shard self None =
     shard_slice (pd_filenames self) (pd_num_processes self) (pd_process_rank self)
   \<and> pd_shard self None = pd_shard self (Some \<lparr>wi_num_workers = 1, wi_id = 0\<rparr>)
   \<and> pd_iter env self None = pd_iter env self (Some \<lparr>wi_num_workers = 1, wi_id = 0\<rparr>)
   \<and> (pd_num_processes self = 1 \<and> pd_process_rank self = 0 \<longrightarrow>
        pd_shard self None = Inr (pd_filenames self)
        \<and> pd_iter env self None =
            pdi_init env (pd_filenames self) (pd_n_chunks self) (pd_block_size self)
              (pd_seed self) (pd_shuffle self) (pd_wrap self))"
  by (simp add: pd_shard_def pd_iter_def shard_slice_def py_slice_all Let_def)

text \<open>C10 at a dataset built with the constructor's defaults.\<close>

theorem pd_iter_no_worker_info_witness:
  "pd_num_processes (PackedDataset [''a'', ''b'', ''c''] 2 1) = 1
   \<and> pd_process_rank (PackedDataset [''a'', ''b'', ''c''] 2 1) = 0
   \<and> pd_shard (PackedDataset [''a'', ''b'', ''c''] 2 1) None = Inr [''a'', ''b'', ''c'']"
proof -
  let ?P = "PackedDataset [''a'', ''b'', ''c''] 2 1"
  have h: "pd_num_processes ?P = 1 \<and> pd_process_rank ?P = 0"
    by (simp add: PackedDataset_def)
  have f: "pd_filenames ?P = [''a'', ''b'', ''c'']"
    by (simp add: PackedDataset_def)
  from pd_iter_no_worker_info [of ?P demo_env] h
  have "pd_shard ?P None = Inr (pd_filenames ?P)" by blast
  then show ?thesis using h f by simp
qed

section \<open>The window load\<close>

subsection \<open>One pass of the loop\<close>

lemma pdi_read_errors:
  "pdi_read fetch path = Inl e \<Longrightarrow>
     e \<in> {FetchError, AssertionError, StructError, KeyError}"
proof (cases "fetch path")
  case None
  then show "pdi_read fetch path = Inl e \<Longrightarrow> ?thesis" by (simp add: pdi_read_def)
next
  case (Some bs)
  show "pdi_read fetch path = Inl e \<Longrightarrow> ?thesis"
    unfolding pdi_read_eq [of fetch path bs, OF Some]
    by (auto split: option.splits if_splits)
qed

lemma pdi_read_content:
  "pdi_read fetch path = Inr (dt, cs, b) \<Longrightarrow> fetch path = Some (content b)"
proof (cases "fetch path")
  case None
  then show "pdi_read fetch path = Inr (dt, cs, b) \<Longrightarrow> ?thesis" by (simp add: pdi_read_def)
next
  case (Some bs)
  show "pdi_read fetch path = Inr (dt, cs, b) \<Longrightarrow> ?thesis"
    unfolding pdi_read_eq [of fetch path bs, OF Some] using Some
    by (auto split: option.splits if_splits)
qed

lemma read_payload:
  "bio_read_all (bio_seek b HDR_SIZE) =
     (drop HDR_SIZE (content b), b\<lparr>pos := HDR_SIZE + (length (content b) - HDR_SIZE)\<rparr>)"
  by (simp add: bio_read_all_def bio_seek_def Let_def)

lemma load_chunk_locked:
  assumes "pdi_dtype st \<noteq> None"
  shows "load_chunk fetch i bio st =
     (if pdi_file_idx st + i < length (pdi_filenames st)
      then (case bio of
              None \<Rightarrow> Inl (UnboundLocalError, st)
            | Some b \<Rightarrow>
                Inr (Some (b\<lparr>pos := HDR_SIZE + (length (content b) - HDR_SIZE)\<rparr>),
                     st\<lparr>pdi_buffers := pdi_buffers st @ [drop HDR_SIZE (content b)]\<rparr>))
      else Inl (IndexError, st))"
proof -
  from assms obtain d where "pdi_dtype st = Some d" by auto
  then show ?thesis
    by (simp add: load_chunk_def py_index_def read_payload split: option.splits)
qed

lemma load_chunk_first:
  assumes "pdi_dtype st = None"
    and "pdi_file_idx st + i < length (pdi_filenames st)"
    and "pdi_read fetch (pdi_filenames st ! (pdi_file_idx st + i)) = Inr (dt, cs, b)"
    and "pdi_block_size st \<noteq> 0"
  shows "load_chunk fetch i bio st =
     Inr (Some (b\<lparr>pos := HDR_SIZE + (length (content b) - HDR_SIZE)\<rparr>),
          st\<lparr>pdi_dtype := Some dt, pdi_chunk_size := Some cs,
             pdi_n_blocks := Some (cs div pdi_block_size st),
             pdi_buffers := pdi_buffers st @ [drop HDR_SIZE (content b)]\<rparr>)"
  using assms
  by (simp add: load_chunk_def py_index_def read_payload Let_def)

lemma load_chunks_locked:
  assumes "pdi_dtype st \<noteq> None"
    and "\<forall>i\<in>set idxs. pdi_file_idx st + i < length (pdi_filenames st)"
  shows "load_chunks fetch idxs (Some b) st =
     Inr (st\<lparr>pdi_buffers := pdi_buffers st @ replicate (length idxs) (drop HDR_SIZE (content b))\<rparr>)"
  using assms
proof (induction idxs arbitrary: b st)
  case Nil
  then show ?case by simp
next
  case (Cons i idxs)
  let ?b' = "b\<lparr>pos := HDR_SIZE + (length (content b) - HDR_SIZE)\<rparr>"
  let ?st' = "st\<lparr>pdi_buffers := pdi_buffers st @ [drop HDR_SIZE (content b)]\<rparr>"
  have step: "load_chunk fetch i (Some b) st = Inr (Some ?b', ?st')"
    using Cons.prems by (simp add: load_chunk_locked)
  have "load_chunks fetch idxs (Some ?b') ?st' =
     Inr (?st'\<lparr>pdi_buffers := pdi_buffers ?st' @ replicate (length idxs) (drop HDR_SIZE (content ?b'))\<rparr>)"
    using Cons.prems by (intro Cons.IH) simp_all
  then show ?case using step by (simp add: replicate_app_Cons_same)
qed

lemma load_chunks_locked_fail:
  assumes "pdi_dtype st \<noteq> None"
    and "\<forall>i\<in>set good. pdi_file_idx st + i < length (pdi_filenames st)"
    and "\<not> pdi_file_idx st + k < length (pdi_filenames st)"
  shows "load_chunks fetch (good @ k # rest) (Some b) st =
     Inl (IndexError,
          st\<lparr>pdi_buffers := pdi_buffers st @ replicate (length good) (drop HDR_SIZE (content b))\<rparr>)"
  using assms
proof (induction good arbitrary: b st)
  case Nil
  then show ?case by (simp add: load_chunk_locked)
next
  case (Cons i good)
  let ?b' = "b\<lparr>pos := HDR_SIZE + (length (content b) - HDR_SIZE)\<rparr>"
  let ?st' = "st\<lparr>pdi_buffers := pdi_buffers st @ [drop HDR_SIZE (content b)]\<rparr>"
  have step: "load_chunk fetch i (Some b) st = Inr (Some ?b', ?st')"
    using Cons.prems by (simp add: load_chunk_locked)
  have "load_chunks fetch (good @ k # rest) (Some ?b') ?st' =
     Inl (IndexError, ?st'\<lparr>pdi_buffers := pdi_buffers ?st' @ replicate (length good) (drop HDR_SIZE (content ?b'))\<rparr>)"
    using Cons.prems by (intro Cons.IH) simp_all
  then show ?case using step by (simp add: replicate_app_Cons_same)
qed

lemma load_chunks_unbound:
  assumes "pdi_dtype st \<noteq> None"
  shows "load_chunks fetch (i # rest) None st =
     (if pdi_file_idx st + i < length (pdi_filenames st)
      then Inl (UnboundLocalError, st) else Inl (IndexError, st))"
  using assms by (simp add: load_chunk_locked)

subsection \<open>What the loop keeps, and the reload of an iterator that has a dtype\<close>

lemma load_chunk_Inr:
  assumes "load_chunk fetch i bio st = Inr (bio', st')"
  shows "pdi_file_idx st + i < length (pdi_filenames st)
       \<and> pdi_file_idx st' = pdi_file_idx st \<and> pdi_filenames st' = pdi_filenames st
       \<and> pdi_n_chunks st' = pdi_n_chunks st \<and> pdi_shuffle st' = pdi_shuffle st
       \<and> pdi_rng st' = pdi_rng st \<and> pdi_wrap st' = pdi_wrap st
       \<and> pdi_block_size st' = pdi_block_size st \<and> pdi_seed st' = pdi_seed st"
  using assms
  by (auto simp: load_chunk_def py_index_def read_payload Let_def
      split: sum.splits option.splits if_splits prod.splits)

lemma load_chunk_Inl:
  assumes "load_chunk fetch i bio st = Inl (e, st')"
  shows "pdi_file_idx st' = pdi_file_idx st
       \<and> e \<in> {IndexError, UnboundLocalError, ZeroDivisionError,
               FetchError, AssertionError, StructError, KeyError}"
  using assms pdi_read_errors [of fetch "pdi_filenames st ! (pdi_file_idx st + i)"]
  by (auto simp: load_chunk_def py_index_def read_payload Let_def
      split: sum.splits option.splits if_splits prod.splits)

lemma load_chunks_Inr:
  assumes "load_chunks fetch idxs bio st = Inr st'"
  shows "(\<forall>i\<in>set idxs. pdi_file_idx st + i < length (pdi_filenames st))
       \<and> pdi_file_idx st' = pdi_file_idx st \<and> pdi_filenames st' = pdi_filenames st
       \<and> pdi_n_chunks st' = pdi_n_chunks st \<and> pdi_shuffle st' = pdi_shuffle st
       \<and> pdi_rng st' = pdi_rng st \<and> pdi_wrap st' = pdi_wrap st
       \<and> pdi_block_size st' = pdi_block_size st \<and> pdi_seed st' = pdi_seed st"
  using assms
proof (induction idxs arbitrary: bio st)
  case Nil
  then show ?case by simp
next
  case (Cons i idxs)
  from Cons.prems obtain bio1 st1 where
    step: "load_chunk fetch i bio st = Inr (bio1, st1)"
    and rest: "load_chunks fetch idxs bio1 st1 = Inr st'"
    by (auto split: sum.splits)
  from load_chunk_Inr [OF step] Cons.IH [OF rest] show ?case by simp
qed

lemma load_chunks_Inl:
  assumes "load_chunks fetch idxs bio st = Inl (e, st')"
  shows "pdi_file_idx st' = pdi_file_idx st
       \<and> e \<in> {IndexError, UnboundLocalError, ZeroDivisionError,
               FetchError, AssertionError, StructError, KeyError}"
  using assms
proof (induction idxs arbitrary: bio st)
  case Nil
  then show ?case by simp
next
  case (Cons i idxs)
  show ?case
  proof (cases "load_chunk fetch i bio st")
    case (Inl err)
    then show ?thesis using Cons.prems load_chunk_Inl [of fetch i bio st e st'] by simp
  next
    case (Inr r)
    obtain bio1 st1 where r: "r = (bio1, st1)" by (cases r)
    from Inr r Cons.prems have rest: "load_chunks fetch idxs bio1 st1 = Inl (e, st')" by simp
    from load_chunk_Inr [of fetch i bio st bio1 st1] Inr r Cons.IH [OF rest]
    show ?thesis by simp
  qed
qed

lemma load_loop_unbound:
  assumes "pdi_dtype s \<noteq> None" and "1 \<le> n"
  shows "load_chunks fetch [0..<n] None s =
     (if pdi_file_idx s < length (pdi_filenames s)
      then Inl (UnboundLocalError, s) else Inl (IndexError, s))"
proof -
  from assms(2) obtain m where n: "n = Suc m" by (cases n) auto
  have idx: "[0..<Suc m] = 0 # [1..<Suc m]" by (simp add: upt_rec)
  have "load_chunks fetch (0 # [1..<Suc m]) None s =
     (if pdi_file_idx s < length (pdi_filenames s)
      then Inl (UnboundLocalError, s) else Inl (IndexError, s))"
    using load_chunks_unbound [OF assms(1), of fetch 0 "[1..<Suc m]"] by simp
  then show ?thesis unfolding n idx .
qed

text \<open>Every reload of an iterator that has a dtype fails.\<close>

lemma reload_locked:
  assumes "pdi_dtype st \<noteq> None" and "1 \<le> pdi_n_chunks st"
  shows "pdi_load_n_chunks env st =
     (if pdi_n_chunks st > length (pdi_filenames st) - pdi_file_idx st
      then (if \<not> pdi_wrap st then Inl (StopIteration, st\<lparr>pdi_buffers := []\<rparr>)
            else if pdi_filenames st = []
            then Inl (IndexError, st\<lparr>pdi_buffers := [], pdi_file_idx := 0\<rparr>)
            else Inl (UnboundLocalError, st\<lparr>pdi_buffers := [], pdi_file_idx := 0\<rparr>))
      else Inl (UnboundLocalError, st\<lparr>pdi_buffers := []\<rparr>))"
proof -
  have loop: "\<And>s. pdi_dtype s = pdi_dtype st \<Longrightarrow> pdi_n_chunks s = pdi_n_chunks st \<Longrightarrow>
     load_chunks (env_fetch env) [0..<pdi_n_chunks st] None s =
       (if pdi_file_idx s < length (pdi_filenames s)
        then Inl (UnboundLocalError, s) else Inl (IndexError, s))"
    using assms by (intro load_loop_unbound) simp_all
  show ?thesis
  proof (cases "pdi_n_chunks st > length (pdi_filenames st) - pdi_file_idx st")
    case True
    then show ?thesis
      by (simp add: pdi_load_n_chunks_def Let_def loop)
  next
    case False
    then have "pdi_file_idx st < length (pdi_filenames st)" using assms(2) by simp
    then show ?thesis using False
      by (simp add: pdi_load_n_chunks_def Let_def loop)
  qed
qed

subsection \<open>The first load\<close>

lemma first_load_loop:
  assumes "pdi_dtype st = None" and "1 \<le> n"
    and "pdi_file_idx st + n \<le> length (pdi_filenames st)"
    and "pdi_read fetch (pdi_filenames st ! pdi_file_idx st) = Inr (dt, cs, b)"
    and "pdi_block_size st \<noteq> 0"
  shows "load_chunks fetch [0..<n] None st =
     Inr (st\<lparr>pdi_dtype := Some dt, pdi_chunk_size := Some cs,
             pdi_n_blocks := Some (cs div pdi_block_size st),
             pdi_buffers := pdi_buffers st @ replicate n (drop HDR_SIZE (content b))\<rparr>)"
proof -
  from assms(2) obtain m where n: "n = Suc m" by (cases n) auto
  have idx: "[0..<Suc m] = 0 # [1..<Suc m]" by (simp add: upt_rec)
  let ?b' = "b\<lparr>pos := HDR_SIZE + (length (content b) - HDR_SIZE)\<rparr>"
  let ?st1 = "st\<lparr>pdi_dtype := Some dt, pdi_chunk_size := Some cs,
             pdi_n_blocks := Some (cs div pdi_block_size st),
             pdi_buffers := pdi_buffers st @ [drop HDR_SIZE (content b)]\<rparr>"
  have step: "load_chunk fetch 0 None st = Inr (Some ?b', ?st1)"
    using assms n load_chunk_first [of st 0 fetch dt cs b None] by simp
  have rest: "load_chunks fetch [1..<Suc m] (Some ?b') ?st1 =
     Inr (?st1\<lparr>pdi_buffers := pdi_buffers ?st1 @ replicate (length [1..<Suc m]) (drop HDR_SIZE (content ?b'))\<rparr>)"
    using assms(3) n by (intro load_chunks_locked) auto
  show ?thesis
    unfolding n idx using step rest by (simp add: replicate_app_Cons_same)
qed

lemma first_load_loop_short:
  assumes "pdi_dtype st = None" and "pdi_file_idx st = 0"
    and "length (pdi_filenames st) < n" and "pdi_filenames st \<noteq> []"
    and "pdi_read fetch (pdi_filenames st ! 0) = Inr (dt, cs, b)"
    and "pdi_block_size st \<noteq> 0"
  shows "load_chunks fetch [0..<n] None st =
     Inl (IndexError,
          st\<lparr>pdi_dtype := Some dt, pdi_chunk_size := Some cs,
             pdi_n_blocks := Some (cs div pdi_block_size st),
             pdi_buffers := pdi_buffers st
                @ replicate (length (pdi_filenames st)) (drop HDR_SIZE (content b))\<rparr>)"
proof -
  let ?len = "length (pdi_filenames st)"
  from assms(4) obtain l where len: "?len = Suc l" by (cases "pdi_filenames st") auto
  have idx: "[0..<n] = 0 # ([1..<?len] @ ?len # [Suc ?len..<n])"
  proof -
    have "[0..<n] = [0..<?len] @ [?len..<n]"
      using assms(3) by (metis le_add_diff_inverse less_imp_le_nat upt_add_eq_append zero_le)
    moreover have "[?len..<n] = ?len # [Suc ?len..<n]" using assms(3) by (simp add: upt_rec)
    moreover have "[0..<?len] = 0 # [1..<?len]" using len by (simp add: upt_rec)
    ultimately show ?thesis by simp
  qed
  let ?b' = "b\<lparr>pos := HDR_SIZE + (length (content b) - HDR_SIZE)\<rparr>"
  let ?st1 = "st\<lparr>pdi_dtype := Some dt, pdi_chunk_size := Some cs,
             pdi_n_blocks := Some (cs div pdi_block_size st),
             pdi_buffers := pdi_buffers st @ [drop HDR_SIZE (content b)]\<rparr>"
  have step: "load_chunk fetch 0 None st = Inr (Some ?b', ?st1)"
    using assms len load_chunk_first [of st 0 fetch dt cs b None] by simp
  have rest: "load_chunks fetch ([1..<?len] @ ?len # [Suc ?len..<n]) (Some ?b') ?st1 =
     Inl (IndexError, ?st1\<lparr>pdi_buffers := pdi_buffers ?st1
            @ replicate (length [1..<?len]) (drop HDR_SIZE (content ?b'))\<rparr>)"
    using assms(2) by (intro load_chunks_locked_fail) auto
  have rep: "drop HDR_SIZE (content b) # replicate l (drop HDR_SIZE (content b))
       = replicate ?len (drop HDR_SIZE (content b))"
    using len by simp
  show ?thesis
    unfolding idx using step rest rep len by simp
qed

lemma first_load:
  assumes "pdi_dtype st = None" and "1 \<le> pdi_n_chunks st"
    and "pdi_n_chunks st \<le> length (pdi_filenames st) - pdi_file_idx st"
    and "pdi_read (env_fetch env) (pdi_filenames st ! pdi_file_idx st) = Inr (dt, cs, b)"
    and "pdi_block_size st \<noteq> 0"
  shows "pdi_load_n_chunks env st =
     (let st3 = st\<lparr>pdi_dtype := Some dt, pdi_chunk_size := Some cs,
                    pdi_n_blocks := Some (cs div pdi_block_size st),
                    pdi_buffers := replicate (pdi_n_chunks st) (drop HDR_SIZE (content b)),
                    pdi_file_idx := pdi_file_idx st + pdi_n_chunks st\<rparr>;
          n_all_blocks = pdi_n_chunks st * (cs div pdi_block_size st)
      in if pdi_shuffle st
         then (case pdi_rng st of
                 None \<Rightarrow> Inl (AttributeError, st3)
               | Some g \<Rightarrow>
                   Inr (st3\<lparr>pdi_rng := Some (snd (env_permutation env g n_all_blocks)),
                           pdi_block_idxs := fst (env_permutation env g n_all_blocks),
                           pdi_curr_idx := 0\<rparr>))
         else Inr (st3\<lparr>pdi_block_idxs := [0..<n_all_blocks], pdi_curr_idx := 0\<rparr>))"
proof -
  let ?s0 = "st\<lparr>pdi_buffers := []\<rparr>"
  have loop: "load_chunks (env_fetch env) [0..<pdi_n_chunks st] None ?s0 =
     Inr (?s0\<lparr>pdi_dtype := Some dt, pdi_chunk_size := Some cs,
             pdi_n_blocks := Some (cs div pdi_block_size ?s0),
             pdi_buffers := pdi_buffers ?s0 @ replicate (pdi_n_chunks st) (drop HDR_SIZE (content b))\<rparr>)"
    using assms by (intro first_load_loop) simp_all
  from assms(2,3) have "\<not> pdi_n_chunks st > length (pdi_filenames st) - pdi_file_idx st"
    by simp
  then show ?thesis using loop
    by (simp add: pdi_load_n_chunks_def Let_def split: option.splits prod.splits)
qed

subsection \<open>Construction\<close>

text \<open>
  Whenever the constructor returns an iterator, every buffer of its window is the payload
  of the first file of the shard.
\<close>

lemma load_chunk_first_Inr:
  assumes "load_chunk fetch i bio st = Inr r" and "pdi_dtype st = None"
  shows "pdi_block_size st \<noteq> 0
       \<and> (\<exists>dt cs b. pdi_read fetch (pdi_filenames st ! (pdi_file_idx st + i)) = Inr (dt, cs, b))"
  using assms
  by (auto simp: load_chunk_def py_index_def Let_def
      split: sum.splits option.splits if_splits prod.splits)

lemma pdi_fresh_idem:
  "(pdi_fresh env fs n bsz seed sh wr)\<lparr>pdi_buffers := []\<rparr> = pdi_fresh env fs n bsz seed sh wr"
  "(pdi_fresh env fs n bsz seed sh wr)\<lparr>pdi_file_idx := 0\<rparr> = pdi_fresh env fs n bsz seed sh wr"
  by (simp_all add: pdi_fresh_def)

lemma pdi_init_Inr:
  assumes "pdi_init env fs n bsz seed sh wr = Inr st"
  shows "1 \<le> n \<and> n \<le> length fs \<and> bsz \<noteq> 0
       \<and> (\<exists>dt cs b. pdi_read (env_fetch env) (fs ! 0) = Inr (dt, cs, b)
            \<and> pdi_buffers st = replicate n (drop HDR_SIZE (content b))
            \<and> pdi_dtype st = Some dt \<and> pdi_chunk_size st = Some cs
            \<and> pdi_n_blocks st = Some (cs div bsz)
            \<and> pdi_file_idx st = n \<and> pdi_curr_idx st = 0
            \<and> pdi_filenames st = fs \<and> pdi_n_chunks st = n \<and> pdi_block_size st = bsz
            \<and> pdi_wrap st = wr \<and> pdi_shuffle st = sh)"
proof -
  let ?s0 = "pdi_fresh env fs n bsz seed sh wr"
  have s0: "pdi_dtype ?s0 = None" "pdi_file_idx ?s0 = 0" "pdi_filenames ?s0 = fs"
    "pdi_n_chunks ?s0 = n" "pdi_block_size ?s0 = bsz" "pdi_n_blocks ?s0 = None"
    "pdi_buffers ?s0 = []" "pdi_wrap ?s0 = wr" "pdi_shuffle ?s0 = sh"
    by (simp_all add: pdi_fresh_def)
  from assms have load: "pdi_load_n_chunks env ?s0 = Inr st"
    by (simp add: pdi_init_def split: sum.splits prod.splits)
  obtain s2 where loop: "load_chunks (env_fetch env) [0..<n] None ?s0 = Inr s2"
    using load s0
    by (auto simp: pdi_load_n_chunks_def Let_def pdi_fresh_idem split: sum.splits if_splits)
  have n1: "1 \<le> n"
  proof (rule ccontr)
    assume "\<not> 1 \<le> n"
    then have "n = 0" by simp
    then show False using load s0
      by (simp add: pdi_load_n_chunks_def Let_def pdi_fresh_idem)
  qed
  from n1 obtain m where m: "n = Suc m" by (cases n) auto
  from load_chunks_Inr [OF loop] have "\<forall>i\<in>set [0..<n]. i < length fs"
    using s0 by simp
  moreover have "m \<in> set [0..<n]" using m by simp
  ultimately have "m < length fs" by blast
  then have nlen: "n \<le> length fs" using m by simp
  have idx: "[0..<Suc m] = 0 # [1..<Suc m]" by (simp add: upt_rec)
  from loop obtain r where "load_chunk (env_fetch env) 0 None ?s0 = Inr r"
    unfolding m idx by (auto split: sum.splits)
  from load_chunk_first_Inr [OF this] s0
  obtain dt cs b where bs: "bsz \<noteq> 0"
    and rd: "pdi_read (env_fetch env) (fs ! 0) = Inr (dt, cs, b)"
    by auto
  have pre: "pdi_dtype ?s0 = None" "1 \<le> pdi_n_chunks ?s0"
    "pdi_n_chunks ?s0 \<le> length (pdi_filenames ?s0) - pdi_file_idx ?s0"
    "pdi_read (env_fetch env) (pdi_filenames ?s0 ! pdi_file_idx ?s0) = Inr (dt, cs, b)"
    "pdi_block_size ?s0 \<noteq> 0"
    using s0 n1 nlen rd bs by simp_all
  note fl = first_load [OF pre]
  from load show ?thesis
    unfolding fl using n1 nlen bs rd s0
    by (auto simp: Let_def split: if_splits option.splits)
qed

lemma pdi_next_reload_fail:
  assumes "length (pdi_block_idxs st) \<le> pdi_curr_idx st"
    and "pdi_load_n_chunks env st = Inl err"
  shows "pdi_next env st = Inl err"
  using assms by (simp add: pdi_next_def)

text \<open>
  The end of a shard without wrapping: the load raises \<open>StopIteration\<close> before it touches
  a file, and \<open>__next__\<close> lets it through.
\<close>

lemma load_end_of_shard:
  assumes "\<not> pdi_wrap st"
    and "length (pdi_filenames st) - pdi_file_idx st < pdi_n_chunks st"
  shows "pdi_load_n_chunks env st = Inl (StopIteration, st\<lparr>pdi_buffers := []\<rparr>)"
    and "length (pdi_block_idxs st) \<le> pdi_curr_idx st \<Longrightarrow>
           pdi_next env st = Inl (StopIteration, st\<lparr>pdi_buffers := []\<rparr>)"
proof -
  show l: "pdi_load_n_chunks env st = Inl (StopIteration, st\<lparr>pdi_buffers := []\<rparr>)"
    using assms by (simp add: pdi_load_n_chunks_def Let_def)
  show "length (pdi_block_idxs st) \<le> pdi_curr_idx st \<Longrightarrow>
           pdi_next env st = Inl (StopIteration, st\<lparr>pdi_buffers := []\<rparr>)"
    using l by (rule pdi_next_reload_fail [rotated])
qed

subsection \<open>The iterator over the concrete files\<close>

lemma demo_init:
  assumes "fs = ''a'' # f # rest"
  shows "pdi_init demo_env fs 2 1 0 False wr = Inr (demo_state fs wr 0)"
proof -
  let ?s0 = "pdi_fresh demo_env fs 2 1 0 False wr"
  have pre: "pdi_dtype ?s0 = None" "1 \<le> pdi_n_chunks ?s0"
    "pdi_n_chunks ?s0 \<le> length (pdi_filenames ?s0) - pdi_file_idx ?s0"
    "pdi_read (env_fetch demo_env) (pdi_filenames ?s0 ! pdi_file_idx ?s0) =
       Inr (UInt8, 2, \<lparr>content = mk_file 1 2 [10, 11], pos = 24\<rparr>)"
    "pdi_block_size ?s0 \<noteq> 0"
    using assms by (simp_all add: pdi_fresh_def demo_env_def demo_read_a)
  have payload: "drop HDR_SIZE (mk_file 1 2 [10, 11]) = [10, 11]"
    by (simp add: mk_file_def HDR_MAGIC_def HDR_SIZE_def)
  show ?thesis
    unfolding pdi_init_def first_load [OF pre]
    by (simp add: pdi_fresh_def demo_state_def payload Let_def upt_rec numeral_2_eq_2)
qed

lemma demo_next:
  assumes "k < 4"
  shows "pdi_next demo_env (demo_state fs wr k) =
     Inr ([if even k then 10 else 11], demo_state fs wr (Suc k))"
proof -
  from assms have "k = 0 \<or> k = 1 \<or> k = 2 \<or> k = 3" by auto
  then show ?thesis
    by (auto simp: pdi_next_def demo_state_def demo_env_def py_index_def frombuffer_def Let_def)
qed

lemma demo_reload:
  assumes "2 \<le> length fs"
  shows "pdi_next demo_env (demo_state fs wr 4) =
     Inl (if length fs < 4 \<and> \<not> wr
          then (StopIteration, (demo_state fs wr 4)\<lparr>pdi_buffers := []\<rparr>)
          else if length fs < 4
          then (UnboundLocalError,
                (demo_state fs wr 4)\<lparr>pdi_buffers := [], pdi_file_idx := 0\<rparr>)
          else (UnboundLocalError, (demo_state fs wr 4)\<lparr>pdi_buffers := []\<rparr>))"
proof -
  have pre: "pdi_dtype (demo_state fs wr 4) \<noteq> None" "1 \<le> pdi_n_chunks (demo_state fs wr 4)"
    by (simp_all add: demo_state_def)
  have cur: "length (pdi_block_idxs (demo_state fs wr 4)) \<le> pdi_curr_idx (demo_state fs wr 4)"
    by (simp add: demo_state_def)
  have flds: "pdi_n_chunks (demo_state fs wr 4) = 2" "pdi_file_idx (demo_state fs wr 4) = 2"
    "pdi_filenames (demo_state fs wr 4) = fs" "pdi_wrap (demo_state fs wr 4) = wr"
    by (simp_all add: demo_state_def)
  have load: "pdi_load_n_chunks demo_env (demo_state fs wr 4) =
     Inl (if length fs < 4 \<and> \<not> wr
          then (StopIteration, (demo_state fs wr 4)\<lparr>pdi_buffers := []\<rparr>)
          else if length fs < 4
          then (UnboundLocalError,
                (demo_state fs wr 4)\<lparr>pdi_buffers := [], pdi_file_idx := 0\<rparr>)
          else (UnboundLocalError, (demo_state fs wr 4)\<lparr>pdi_buffers := []\<rparr>))"
    unfolding reload_locked [OF pre] flds using assms by auto
  show ?thesis by (rule pdi_next_reload_fail [OF cur load])
qed

lemma outcomes_5:
  "outcomes nxt 5 st = outcomes nxt (Suc (Suc (Suc (Suc (Suc 0))))) st"
  by (simp add: eval_nat_numeral)

lemma demo_run:
  assumes "2 \<le> length fs" and "4 \<le> length fs \<or> wr"
  shows "outcomes (pdi_next demo_env) 5 (demo_state fs wr 0) =
        [Inr [10], Inr [11], Inr [10], Inr [11], Inl UnboundLocalError]"
proof -
  have four: "Suc (Suc (Suc (Suc 0))) = 4" by simp
  have r: "pdi_next demo_env (demo_state fs wr 4) =
     Inl (UnboundLocalError,
          if length fs < 4
          then (demo_state fs wr 4)\<lparr>pdi_buffers := [], pdi_file_idx := 0\<rparr>
          else (demo_state fs wr 4)\<lparr>pdi_buffers := []\<rparr>)"
    unfolding demo_reload [OF assms(1)] using assms(2) by auto
  have r': "pdi_next demo_env (demo_state fs wr (Suc (Suc (Suc (Suc 0))))) =
     Inl (UnboundLocalError,
          if length fs < 4
          then (demo_state fs wr 4)\<lparr>pdi_buffers := [], pdi_file_idx := 0\<rparr>
          else (demo_state fs wr 4)\<lparr>pdi_buffers := []\<rparr>)"
    unfolding four by (rule r)
  show ?thesis
    unfolding outcomes_5
    by (simp add: pull_def demo_next r')
qed

text \<open>
  C1 says that after a load buffer \<open>i\<close> of the window holds the payload of the shard's
  file at position (old cursor + \<open>i\<close>). On the shard \<open>a, b, c, d\<close> with \<open>n_chunks = 2\<close> the
  constructor's load leaves the payload of file \<open>a\<close> in both buffers, while the payload of
  file \<open>b\<close>, which the claim puts in buffer 1, is \<open>[20, 21]\<close>: file \<open>b\<close> is never fetched.
\<close>

theorem load_window_failing_input:
  "map_sum id pdi_buffers (pdi_init demo_env [''a'', ''b'', ''c'', ''d''] 2 1 0 False False) =
     Inr [[10, 11], [10, 11]]
   \<and> pdi_read demo_fetch ''b'' =
       Inr (UInt8, 2, \<lparr>content = mk_file 1 2 [20, 21], pos = 24\<rparr>)
   \<and> drop HDR_SIZE (mk_file 1 2 [20, 21]) = [20, 21]"
proof -
  have fb: "demo_fetch ''b'' = Some (mk_file 1 2 [20, 21])" by (simp add: demo_fetch_def)
  have rb: "pdi_read demo_fetch ''b'' =
       Inr (UInt8, 2, \<lparr>content = mk_file 1 2 [20, 21], pos = 24\<rparr>)"
    by (simp add: pdi_read_eq [of demo_fetch "''b''" "mk_file 1 2 [20, 21]", OF fb]
        mk_file_def HDR_MAGIC_def dtypes_def)
  have payload: "drop HDR_SIZE (mk_file 1 2 [20, 21]) = [20, 21]"
    by (simp add: mk_file_def HDR_MAGIC_def HDR_SIZE_def)
  have i1: "pdi_init demo_env [''a'', ''b'', ''c'', ''d''] 2 1 0 False False =
      Inr (demo_state [''a'', ''b'', ''c'', ''d''] False 0)"
    by (rule demo_init) simp
  show ?thesis
    unfolding i1 using rb payload by (simp add: demo_state_def)
qed

text \<open>
  C3 says that with 4 shard files, \<open>n_chunks = 2\<close> and no wrapping the iterator serves two
  windows and signals the end of the shard on the third load, and that with wrapping the
  cursor goes back to the start and the iteration continues. On the shard \<open>a, b, c, d\<close>
  without wrapping, and on the shard \<open>a, b, c\<close> with wrapping, the four blocks of the first
  window are served and the second load raises \<open>UnboundLocalError\<close>.
\<close>

theorem reload_failing_input:
  "map_sum id (outcomes (pdi_next demo_env) 5)
      (pdi_init demo_env [''a'', ''b'', ''c'', ''d''] 2 1 0 False False) =
     Inr [Inr [10], Inr [11], Inr [10], Inr [11], Inl UnboundLocalError]
   \<and> map_sum id (outcomes (pdi_next demo_env) 5)
      (pdi_init demo_env [''a'', ''b'', ''c''] 2 1 0 False True) =
     Inr [Inr [10], Inr [11], Inr [10], Inr [11], Inl UnboundLocalError]"
proof -
  have i1: "pdi_init demo_env [''a'', ''b'', ''c'', ''d''] 2 1 0 False False =
      Inr (demo_state [''a'', ''b'', ''c'', ''d''] False 0)"
    by (rule demo_init) simp
  have i2: "pdi_init demo_env [''a'', ''b'', ''c''] 2 1 0 False True =
      Inr (demo_state [''a'', ''b'', ''c''] True 0)"
    by (rule demo_init) simp
  show ?thesis unfolding i1 i2 by (simp add: demo_run)
qed

subsection \<open>Wrapping on a shard shorter than the window\<close>

lemma load_chunk_first_Inl:
  assumes "pdi_dtype st = None"
    and "pdi_file_idx st + i < length (pdi_filenames st)"
  shows "(\<forall>e'. pdi_read fetch (pdi_filenames st ! (pdi_file_idx st + i)) = Inl e' \<longrightarrow>
            load_chunk fetch i bio st = Inl (e', st))
       \<and> (\<forall>r. pdi_read fetch (pdi_filenames st ! (pdi_file_idx st + i)) = Inr r \<longrightarrow>
            pdi_block_size st = 0 \<longrightarrow>
            (\<exists>st'. load_chunk fetch i bio st = Inl (ZeroDivisionError, st')))"
  using assms
  by (auto simp: load_chunk_def py_index_def Let_def split: prod.splits)

lemma load_chunks_head:
  assumes "1 \<le> n"
  shows "load_chunks fetch [0..<n] bio st =
      (case load_chunk fetch 0 bio st of
         Inl err \<Rightarrow> Inl err
       | Inr (bio1, st1) \<Rightarrow> load_chunks fetch [1..<n] bio1 st1)"
proof -
  from assms obtain m where n: "n = Suc m" by (cases n) auto
  have idx: "[0..<Suc m] = 0 # [1..<Suc m]" by (simp add: upt_rec)
  show ?thesis unfolding n idx by (simp only: load_chunks.simps)
qed

text \<open>
  C9, as stated, at a concrete input: the shard holds the one file \<open>''t''\<close>, fewer than
  \<open>n_chunks = 2\<close>, and wrapping is on; the load fails on the header of the file
  (\<open>struct.error\<close>) and never reaches the out-of-range access.
\<close>

theorem wrap_short_shard_counterexample:
  "pdi_wrap (pdi_fresh demo_env [''t''] 2 1 0 False True)
   \<and> length (pdi_filenames (pdi_fresh demo_env [''t''] 2 1 0 False True))
       < pdi_n_chunks (pdi_fresh demo_env [''t''] 2 1 0 False True)
   \<and> map_sum fst id (pdi_load_n_chunks demo_env (pdi_fresh demo_env [''t''] 2 1 0 False True))
       = Inl StructError
   \<and> pdi_init demo_env [''t''] 2 1 0 False True = Inl StructError"
proof -
  let ?st = "pdi_fresh demo_env [''t''] 2 1 0 False True"
  have h: "pdi_wrap ?st" "length (pdi_filenames ?st) < pdi_n_chunks ?st"
    by (simp_all add: pdi_fresh_def)
  have idx: "[0..<2] = 0 # [1..<2]" by (simp add: upt_rec)
  have "pdi_load_n_chunks demo_env ?st = Inl (StructError, ?st)"
    by (simp add: pdi_load_n_chunks_def pdi_fresh_def Let_def idx load_chunk_def
        py_index_def demo_env_def demo_read_t)
  then show ?thesis using h by (simp add: pdi_init_def)
qed

text \<open>
  C9, amended: with wrapping on and fewer than \<open>n_chunks\<close> files in the shard, a load
  always fails, with the file cursor back at 0 and never with \<open>StopIteration\<close>; no window
  is produced. The failure is the out-of-range access (\<open>IndexError\<close>) when the shard is
  empty, and also when no dtype is set yet (the constructor's load), \<open>block_size\<close> is not
  0 and the header of the first file is read successfully. When that first read fails,
  the failure is the one of the read; when \<open>block_size\<close> is 0 it is \<open>ZeroDivisionError\<close>.
\<close>

theorem wrap_short_shard:
  assumes "pdi_wrap st" and "length (pdi_filenames st) < pdi_n_chunks st"
  shows "\<exists>e st'. pdi_load_n_chunks env st = Inl (e, st')
           \<and> pdi_file_idx st' = 0 \<and> e \<noteq> StopIteration
           \<and> (pdi_filenames st = [] \<longrightarrow> e = IndexError)
           \<and> (pdi_filenames st \<noteq> [] \<and> pdi_dtype st = None \<longrightarrow>
                (\<forall>e'. pdi_read (env_fetch env) (pdi_filenames st ! 0) = Inl e' \<longrightarrow> e = e')
              \<and> (\<forall>r. pdi_read (env_fetch env) (pdi_filenames st ! 0) = Inr r \<longrightarrow>
                   (if pdi_block_size st = 0 then e = ZeroDivisionError else e = IndexError)))"
proof -
  let ?n = "pdi_n_chunks st"
  let ?fs = "pdi_filenames st"
  let ?s1 = "st\<lparr>pdi_buffers := [], pdi_file_idx := 0\<rparr>"
  have s1: "pdi_file_idx ?s1 = 0" "pdi_filenames ?s1 = ?fs" "pdi_dtype ?s1 = pdi_dtype st"
    "pdi_block_size ?s1 = pdi_block_size st" "pdi_buffers ?s1 = []"
    by simp_all
  from assms(2) have "?n > length (drop (pdi_file_idx st) ?fs)" by simp
  then have load: "pdi_load_n_chunks env st =
     (case load_chunks (env_fetch env) [0..<?n] None ?s1 of
        Inl err \<Rightarrow> Inl err
      | Inr self2 \<Rightarrow>
          (let self3 = self2\<lparr>pdi_file_idx := pdi_file_idx self2 + pdi_n_chunks self2\<rparr>
           in case pdi_n_blocks self3 of
                None \<Rightarrow> Inl (TypeError, self3)
              | Some n_blocks \<Rightarrow>
                  (let n_all_blocks = pdi_n_chunks self3 * n_blocks
                   in if pdi_shuffle self3
                      then (case pdi_rng self3 of
                              None \<Rightarrow> Inl (AttributeError, self3)
                            | Some g \<Rightarrow>
                                (let (p, g') = env_permutation env g n_all_blocks
                                 in Inr (self3\<lparr>pdi_rng := Some g',
                                                pdi_block_idxs := p,
                                                pdi_curr_idx := 0\<rparr>)))
                      else Inr (self3\<lparr>pdi_block_idxs := [0..<n_all_blocks],
                                      pdi_curr_idx := 0\<rparr>))))"
    using assms(1) by (simp add: pdi_load_n_chunks_def Let_def)
  have no_Inr: "\<And>s2. load_chunks (env_fetch env) [0..<?n] None ?s1 \<noteq> Inr s2"
  proof
    fix s2 assume "load_chunks (env_fetch env) [0..<?n] None ?s1 = Inr s2"
    from load_chunks_Inr [OF this] have "\<forall>i\<in>set [0..<?n]. i < length ?fs" by simp
    moreover have "length ?fs \<in> set [0..<?n]" using assms(2) by simp
    ultimately show False by blast
  qed
  then obtain e st' where loop: "load_chunks (env_fetch env) [0..<?n] None ?s1 = Inl (e, st')"
    by (cases "load_chunks (env_fetch env) [0..<?n] None ?s1") auto
  from load_chunks_Inl [OF loop]
  have idx0: "pdi_file_idx st' = 0" and e_kind: "e \<noteq> StopIteration" by auto
  from assms(2) have "1 \<le> ?n" by simp
  note first = load_chunks_head [OF this, of "env_fetch env" None ?s1]
  have empty: "?fs = [] \<longrightarrow> e = IndexError"
  proof
    assume "?fs = []"
    then have "load_chunk (env_fetch env) 0 None ?s1 = Inl (IndexError, ?s1)"
      by (simp add: load_chunk_def py_index_def)
    with loop first show "e = IndexError" by simp
  qed
  have fresh: "?fs \<noteq> [] \<and> pdi_dtype st = None \<longrightarrow>
                (\<forall>e'. pdi_read (env_fetch env) (?fs ! 0) = Inl e' \<longrightarrow> e = e')
              \<and> (\<forall>r. pdi_read (env_fetch env) (?fs ! 0) = Inr r \<longrightarrow>
                   (if pdi_block_size st = 0 then e = ZeroDivisionError else e = IndexError))"
  proof (intro impI conjI allI)
    fix e'
    assume a: "?fs \<noteq> [] \<and> pdi_dtype st = None"
      and rd: "pdi_read (env_fetch env) (?fs ! 0) = Inl e'"
    from a have pre: "pdi_dtype ?s1 = None" "pdi_file_idx ?s1 + 0 < length (pdi_filenames ?s1)"
      by simp_all
    from load_chunk_first_Inl [OF pre, of "env_fetch env" None] rd
    have "load_chunk (env_fetch env) 0 None ?s1 = Inl (e', ?s1)" by simp
    with loop first show "e = e'" by simp
  next
    fix r
    assume a: "?fs \<noteq> [] \<and> pdi_dtype st = None"
      and rd: "pdi_read (env_fetch env) (?fs ! 0) = Inr r"
    from a have pre: "pdi_dtype ?s1 = None" "pdi_file_idx ?s1 + 0 < length (pdi_filenames ?s1)"
      by simp_all
    show "if pdi_block_size st = 0 then e = ZeroDivisionError else e = IndexError"
    proof (cases "pdi_block_size st = 0")
      case True
      from load_chunk_first_Inl [OF pre, of "env_fetch env" None] rd True
      have "\<exists>st''. load_chunk (env_fetch env) 0 None ?s1 = Inl (ZeroDivisionError, st'')"
        by (cases r) simp
      then obtain st'' where
        "load_chunk (env_fetch env) 0 None ?s1 = Inl (ZeroDivisionError, st'')" ..
      with loop first True show ?thesis by simp
    next
      case False
      obtain dt cs b where r: "r = (dt, cs, b)" by (cases r)
      have "load_chunks (env_fetch env) [0..<?n] None ?s1 =
          Inl (IndexError,
            ?s1\<lparr>pdi_dtype := Some dt, pdi_chunk_size := Some cs,
                 pdi_n_blocks := Some (cs div pdi_block_size ?s1),
                 pdi_buffers := pdi_buffers ?s1
                   @ replicate (length (pdi_filenames ?s1)) (drop HDR_SIZE (content b))\<rparr>)"
        using a assms(2) rd r False by (intro first_load_loop_short) simp_all
      with loop False show ?thesis by simp
    qed
  qed
  show ?thesis
    unfolding load loop using idx0 e_kind empty fresh by simp
qed

text \<open>The amended C9 at the shard of the single well-formed file \<open>''a''\<close>.\<close>

theorem wrap_short_shard_witness:
  "pdi_wrap (pdi_fresh demo_env [''a''] 2 1 0 False True)
   \<and> length (pdi_filenames (pdi_fresh demo_env [''a''] 2 1 0 False True))
       < pdi_n_chunks (pdi_fresh demo_env [''a''] 2 1 0 False True)
   \<and> (\<exists>st'. pdi_load_n_chunks demo_env (pdi_fresh demo_env [''a''] 2 1 0 False True)
               = Inl (IndexError, st') \<and> pdi_file_idx st' = 0)
   \<and> pdi_init demo_env [''a''] 2 1 0 False True = Inl IndexError"
proof -
  let ?st = "pdi_fresh demo_env [''a''] 2 1 0 False True"
  have h: "pdi_wrap ?st" "length (pdi_filenames ?st) < pdi_n_chunks ?st"
    by (simp_all add: pdi_fresh_def)
  have rd: "pdi_read (env_fetch demo_env) (pdi_filenames ?st ! 0) =
      Inr (UInt8, 2, \<lparr>content = mk_file 1 2 [10, 11], pos = 24\<rparr>)"
    using demo_read_a by (simp add: pdi_fresh_def demo_env_def)
  have f: "pdi_filenames ?st \<noteq> [] \<and> pdi_dtype ?st = None" "pdi_block_size ?st \<noteq> 0"
    by (simp_all add: pdi_fresh_def)
  from wrap_short_shard [OF h, of demo_env] f rd
  obtain st' where "pdi_load_n_chunks demo_env ?st = Inl (IndexError, st')"
    and "pdi_file_idx st' = 0"
    by auto
  then show ?thesis using h by (auto simp: pdi_init_def)
qed

section \<open>The block index sequence\<close>




section \<open>Samples\<close>









section \<open>The weighted combinator\<close>

subsection \<open>Running sums and bisection\<close>









subsection \<open>The chosen index\<close>







section \<open>Independent iterators\<close>









end
